theory Spec2Isabelle
  imports Main
begin

section \<open>Python values, exceptions and dictionaries\<close>

text \<open>
  The command line front end of compose-dump (\<^verbatim>\<open>dump/cli/main.py\<close>) works on an options
  dictionary whose values are \<^verbatim>\<open>None\<close>, booleans, strings, \<^verbatim>\<open>pathlib.Path\<close> objects,
  tuples and lists of strings, and the function object \<^verbatim>\<open>backup\<close>. A POSIX path is kept
  the way \<^verbatim>\<open>pathlib\<close> keeps it: its root (\<^verbatim>\<open>''\<close>, \<^verbatim>\<open>'/'\<close> or \<^verbatim>\<open>'//'\<close>) and its
  components.
\<close>

datatype path = Path (root: string) (parts: "string list")

datatype pyval =
    PyNone
  | PyBool bool
  | PyStr string
  | PyPath path
  | PyTuple "string list"
  | PyList "string list"
  | PyFunc string

datatype error =
    KeyError string
  | TypeError
  | SystemExit int
  | ConfigurationError string
  | OtherError string

type_synonym options = "string \<rightharpoonup> pyval"

definition bindE :: "error + 'a \<Rightarrow> ('a \<Rightarrow> error + 'b) \<Rightarrow> error + 'b" where
  "bindE m f = (case m of Inl e \<Rightarrow> Inl e | Inr v \<Rightarrow> f v)"

text \<open>Truth value testing (\<^verbatim>\<open>if x:\<close>, \<^verbatim>\<open>x or y\<close>, \<^verbatim>\<open>not x\<close>).\<close>

fun truthy :: "pyval \<Rightarrow> bool" where
  "truthy PyNone = False"
| "truthy (PyBool b) = b"
| "truthy (PyStr s) = (s \<noteq> [])"
| "truthy (PyPath p) = True"
| "truthy (PyTuple xs) = (xs \<noteq> [])"
| "truthy (PyList xs) = (xs \<noteq> [])"
| "truthy (PyFunc f) = True"

text \<open>\<^verbatim>\<open>d[k]\<close> and \<^verbatim>\<open>del d[k]\<close> raise \<^verbatim>\<open>KeyError\<close> on a missing key.\<close>

definition getitem :: "options \<Rightarrow> string \<Rightarrow> error + pyval" where
  "getitem d k = (case d k of None \<Rightarrow> Inl (KeyError k) | Some v \<Rightarrow> Inr v)"

definition delitem :: "options \<Rightarrow> string \<Rightarrow> error + options" where
  "delitem d k = (case d k of None \<Rightarrow> Inl (KeyError k) | Some v \<Rightarrow> Inr (d(k := None)))"

text \<open>\<^verbatim>\<open>x += (scope,)\<close>: a tuple is concatenated, a list is extended, anything else cannot
  be added to a tuple.\<close>

fun iadd_tuple :: "pyval \<Rightarrow> string list \<Rightarrow> error + pyval" where
  "iadd_tuple (PyTuple xs) ys = Inr (PyTuple (xs @ ys))"
| "iadd_tuple (PyList xs) ys = Inr (PyList (xs @ ys))"
| "iadd_tuple v ys = Inl TypeError"

subsection \<open>\<^verbatim>\<open>pathlib.Path\<close> on POSIX\<close>

text \<open>\<^verbatim>\<open>s.split('/')\<close>.\<close>

fun split_slash :: "string \<Rightarrow> string list" where
  "split_slash [] = [[]]"
| "split_slash (c # cs) =
     (if c = CHR ''/'' then [] # split_slash cs
      else (case split_slash cs of [] \<Rightarrow> [[c]] | w # ws \<Rightarrow> (c # w) # ws))"

text \<open>The root of a path string: two leading slashes are kept, any other number of
  leading slashes is one.\<close>

definition splitroot :: "string \<Rightarrow> string \<times> string" where
  "splitroot part =
     (if part \<noteq> [] \<and> hd part = CHR ''/'' then
        (let stripped = dropWhile (\<lambda>c. c = CHR ''/'') part
         in if length part - length stripped = 2 then (''//'', stripped) else (''/'', stripped))
      else ('''', part))"

text \<open>\<^verbatim>\<open>Path(s)\<close> for a string: empty components and \<^verbatim>\<open>'.'\<close> components are dropped.\<close>

definition parse_path :: "string \<Rightarrow> path" where
  "parse_path s =
     (if s = [] then Path [] []
      else (case splitroot s of (r, rel) \<Rightarrow>
              Path r (filter (\<lambda>x. x \<noteq> [] \<and> x \<noteq> ''.'') (split_slash rel))))"

text \<open>\<^verbatim>\<open>Path(x)\<close> accepts a string or a path and raises \<^verbatim>\<open>TypeError\<close> otherwise.\<close>

fun Path_of :: "pyval \<Rightarrow> error + path" where
  "Path_of (PyStr s) = Inr (parse_path s)"
| "Path_of (PyPath p) = Inr p"
| "Path_of v = Inl TypeError"

text \<open>\<^verbatim>\<open>p.name\<close>: the final component, \<^verbatim>\<open>''\<close> when there is none.\<close>

definition path_name :: "path \<Rightarrow> string" where
  "path_name p = (if parts p = [] then [] else last (parts p))"

text \<open>\<^verbatim>\<open>s.rfind(c)\<close>: the highest index of \<^verbatim>\<open>c\<close>, or \<^verbatim>\<open>-1\<close>.\<close>

definition rfind :: "string \<Rightarrow> char \<Rightarrow> int" where
  "rfind s c =
     (case filter (\<lambda>i. s ! i = c) (rev [0..<length s]) of [] \<Rightarrow> - 1 | i # _ \<Rightarrow> int i)"

text \<open>\<^verbatim>\<open>p.suffix\<close>: the part of the name from its last dot on, when that dot is neither the
  first nor the last character of the name.\<close>

definition suffix :: "path \<Rightarrow> string" where
  "suffix p =
     (let nm = path_name p; i = rfind nm (CHR ''.'')
      in if 0 < i \<and> i < int (length nm) - 1 then drop (nat i) nm else [])"

section \<open>The option normalizer\<close>

definition COMPRESSIONS :: "string list" where
  "COMPRESSIONS = [''bz2'', ''gz'', ''tar'', ''xz'']"

definition COMPRESSION_EXTENSIONS :: "string list" where
  "COMPRESSION_EXTENSIONS = map (\<lambda>x. ''.'' @ x) COMPRESSIONS"

definition SCOPES :: "string list" where
  "SCOPES = [''config'', ''mounted'', ''volumes'']"

text \<open>
  The loop \<^verbatim>\<open>for scope in SCOPES\<close> of \<^verbatim>\<open>process_backup_options\<close>, over the scopes still to
  visit: a set flag appends the scope to \<^verbatim>\<open>options['scopes']\<close>, and the flag is deleted.
\<close>

fun scopes_loop :: "string list \<Rightarrow> options \<Rightarrow> error + options" where
  "scopes_loop [] options = Inr options"
| "scopes_loop (scope # rest) options =
     bindE (getitem options scope) (\<lambda>flag.
     bindE (if truthy flag then
              bindE (getitem options ''scopes'') (\<lambda>cur.
              bindE (iadd_tuple cur [scope]) (\<lambda>new.
              Inr (options(''scopes'' \<mapsto> new))))
            else Inr options) (\<lambda>options.
     bindE (delitem options scope) (\<lambda>options.
     scopes_loop rest options)))"

text \<open>
  \<^verbatim>\<open>process_backup_options(options)\<close> is straight-line code in four paragraphs, each
  given here as a function from the dictionary to the updated dictionary or the exception
  raised. The helper \<^verbatim>\<open>directory_exists\<close> of \<^verbatim>\<open>dump.cli.utils\<close> is a parameter: it is
  called for its effect only, so all the caller sees is whether it returns or raises.
  \<^verbatim>\<open>getenv\<close> is the process environment.
\<close>

text \<open>Lines 98 to 107: the action and the compose files, the project directory and the
  project name (\<^verbatim>\<open>options['project_name'] or os.getenv(...) or options['project_dir'].name\<close>).\<close>

definition resolve_project ::
  "(pyval \<Rightarrow> error + unit) \<Rightarrow> (string \<rightharpoonup> string) \<Rightarrow> options \<Rightarrow> error + options" where
  "resolve_project directory_exists getenv options =
     bindE (delitem options ''action'') (\<lambda>options.
     bindE (getitem options ''file'') (\<lambda>file.
     bindE (delitem (options(''compose_files'' \<mapsto> file)) ''file'') (\<lambda>options.
     bindE (getitem options ''project_dir'') (\<lambda>pd.
     bindE (Path_of pd) (\<lambda>project_dir.
     let options = options(''project_dir'' \<mapsto> PyPath project_dir) in
     bindE (directory_exists (PyPath project_dir)) (\<lambda>_.
     bindE (getitem options ''project_name'') (\<lambda>pn.
     let project_name =
           (if truthy pn then pn
            else (case getenv ''COMPOSE_PROJECT_NAME'' of
                    None \<Rightarrow> PyStr (path_name project_dir)
                  | Some v \<Rightarrow> if v \<noteq> [] then PyStr v else PyStr (path_name project_dir)))
     in Inr (options(''project_name'' \<mapsto> project_name)))))))))"

text \<open>Lines 109 to 115: the scopes, all of them when no flag is set.\<close>

definition resolve_scopes :: "options \<Rightarrow> error + options" where
  "resolve_scopes options =
     bindE (scopes_loop SCOPES (options(''scopes'' \<mapsto> PyTuple []))) (\<lambda>options.
     bindE (getitem options ''scopes'') (\<lambda>scopes.
     if \<not> truthy scopes then Inr (options(''scopes'' \<mapsto> PyTuple SCOPES))
     else Inr options))"

text \<open>Lines 117 to 123: the target as a path, and the compression, taken from the target's
  suffix or defaulting to \<^verbatim>\<open>'tar'\<close> when none is given.\<close>

definition resolve_compression :: "options \<Rightarrow> error + options" where
  "resolve_compression options =
     bindE (getitem options ''target'') (\<lambda>target.
     if target \<noteq> PyNone then
       bindE (Path_of target) (\<lambda>tp.
       let options = options(''target'' \<mapsto> PyPath tp) in
       bindE (getitem options ''compression'') (\<lambda>compression.
       if compression = PyNone \<and> suffix tp \<in> set COMPRESSION_EXTENSIONS
       then Inr (options(''compression'' \<mapsto> PyStr (drop 1 (suffix tp))))
       else Inr options))
     else
       bindE (getitem options ''compression'') (\<lambda>compression.
       if compression = PyNone then Inr (options(''compression'' \<mapsto> PyStr ''tar''))
       else Inr options))"

text \<open>Lines 124 to 128: the target type.\<close>

definition resolve_target_type :: "(pyval \<Rightarrow> error + unit) \<Rightarrow> options \<Rightarrow> error + options" where
  "resolve_target_type directory_exists options =
     bindE (getitem options ''compression'') (\<lambda>compression.
     if truthy compression then Inr (options(''target_type'' \<mapsto> PyStr ''archive''))
     else
       bindE (getitem options ''target'') (\<lambda>target.
       bindE (directory_exists target) (\<lambda>_.
       Inr (options(''target_type'' \<mapsto> PyStr ''folder'')))))"

definition process_backup_options ::
  "(pyval \<Rightarrow> error + unit) \<Rightarrow> (string \<rightharpoonup> string) \<Rightarrow> options \<Rightarrow> error + options" where
  "process_backup_options directory_exists getenv options =
     bindE (resolve_project directory_exists getenv options) (\<lambda>options.
     bindE (resolve_scopes options) (\<lambda>options.
     bindE (resolve_compression options) (\<lambda>options.
     resolve_target_type directory_exists options)))"

text \<open>A flag of the dictionary is set when it is present and true.\<close>

definition flag_set :: "options \<Rightarrow> string \<Rightarrow> bool" where
  "flag_set d k = (case d k of None \<Rightarrow> False | Some v \<Rightarrow> truthy v)"

section \<open>The compose context loader\<close>

text \<open>
  The external library hands back a validated configuration: a list of services, each
  with a name. What \<^verbatim>\<open>get_compose_context\<close> uses from outside this program is gathered in
  one record: the three calls into the library (each returns or raises), Python's
  \<^verbatim>\<open>str\<close>, and the order in which a set of strings is iterated, which the language
  leaves open.
\<close>

record service =
  name :: string

record config =
  services :: "service list"

record ('e, 'd) compose_config =
  from_env_file :: "string \<Rightarrow> error + 'e"
  find' :: "string \<Rightarrow> pyval \<Rightarrow> 'e \<Rightarrow> error + 'd"
  load :: "'d \<Rightarrow> error + config"
  py_str :: "pyval \<Rightarrow> string"
  set_iter :: "string list \<Rightarrow> string list"

text \<open>\<^verbatim>\<open>sep.join(xs)\<close>.\<close>

fun join :: "string \<Rightarrow> string list \<Rightarrow> string" where
  "join sep [] = []"
| "join sep [x] = x"
| "join sep (x # y # ys) = x @ sep @ join sep (y # ys)"

text \<open>Iterating a value, as \<^verbatim>\<open>set(x)\<close> does: the items of a tuple or list, the characters
  of a string; nothing else here is iterable.\<close>

fun iter :: "pyval \<Rightarrow> error + string list" where
  "iter (PyTuple xs) = Inr xs"
| "iter (PyList xs) = Inr xs"
| "iter (PyStr s) = Inr (map (\<lambda>c. [c]) s)"
| "iter v = Inl TypeError"

text \<open>
  \<^verbatim>\<open>get_compose_context(options)\<close> returns the messages it logs at error level together with
  either the exception raised or the updated options and the triple it returns. A step
  that raises ends the function with nothing logged by it.
\<close>

definition bindL ::
  "error + 'a \<Rightarrow> ('a \<Rightarrow> string list \<times> (error + 'b)) \<Rightarrow> string list \<times> (error + 'b)" where
  "bindL m f = (case m of Inl e \<Rightarrow> ([], Inl e) | Inr v \<Rightarrow> f v)"

definition get_compose_context ::
  "('e, 'd) compose_config \<Rightarrow> options \<Rightarrow>
     string list \<times> (error + options \<times> config \<times> 'd \<times> 'e)" where
  "get_compose_context lib options =
     bindL (getitem options ''project_dir'') (\<lambda>pd.
     let base_dir = py_str lib pd in
     bindL (from_env_file lib base_dir) (\<lambda>environment.
     bindL (getitem options ''compose_files'') (\<lambda>files.
     bindL (find' lib base_dir files environment) (\<lambda>config_details.
     (case load lib config_details of
        Inl e \<Rightarrow>
          (case e of
             ConfigurationError msg \<Rightarrow> ([msg], Inl (SystemExit 1))
           | _ \<Rightarrow> ([], Inl e))
      | Inr config \<Rightarrow>
          bindL (getitem options ''services'') (\<lambda>wanted.
          bindL (iter wanted) (\<lambda>wanted_names.
          let names = map name (services config);
              unknown_services = remdups (filter (\<lambda>s. s \<notin> set names) wanted_names)
          in if unknown_services \<noteq> [] then
               ([''Unknown services: '' @ join '', '' (set_iter lib unknown_services)],
                Inl (SystemExit 1))
             else if \<not> truthy wanted then
               ([], Inr (options(''services'' \<mapsto> PyTuple names),
                         config, config_details, environment))
             else ([], Inr (options, config, config_details, environment)))))))))"

section \<open>The argument parser\<close>

text \<open>
  The subparsers object of \<^verbatim>\<open>argparse\<close> maps a subcommand name to its parser; a parser
  is its declared arguments and the defaults set by \<^verbatim>\<open>set_defaults\<close>.
\<close>

datatype arg_kind = StoreTrue | Store | StoreMany

record argument =
  flags :: "string list"
  dest :: string
  kind :: arg_kind
  dflt :: pyval
  choices :: "string list option"

record subparser =
  defaults :: "(string \<times> pyval) list"
  arguments :: "argument list"

type_synonym subparsers = "string \<rightharpoonup> subparser"

text \<open>\<^verbatim>\<open>add_backup_parser(subparsers)\<close>; \<^verbatim>\<open>cwd\<close> is \<^verbatim>\<open>os.getcwd()\<close>.\<close>

definition add_backup_parser :: "string \<Rightarrow> subparsers \<Rightarrow> subparsers" where
  "add_backup_parser cwd subparsers =
     subparsers(''backup'' \<mapsto>
       \<lparr>defaults = [(''action'', PyFunc ''backup'')],
        arguments =
         [\<lparr>flags = [''--config''], dest = ''config'', kind = StoreTrue,
           dflt = PyBool False, choices = None\<rparr>,
          \<lparr>flags = [''-x'', ''--compression''], dest = ''compression'', kind = Store,
           dflt = PyNone, choices = Some COMPRESSIONS\<rparr>,
          \<lparr>flags = [''-f'', ''--file''], dest = ''file'', kind = StoreMany,
           dflt = PyNone, choices = None\<rparr>,
          \<lparr>flags = [''--mounted''], dest = ''mounted'', kind = StoreTrue,
           dflt = PyBool False, choices = None\<rparr>,
          \<lparr>flags = [''--no-pause''], dest = ''no_pause'', kind = StoreTrue,
           dflt = PyBool False, choices = None\<rparr>,
          \<lparr>flags = [''--project-dir''], dest = ''project_dir'', kind = Store,
           dflt = PyStr cwd, choices = None\<rparr>,
          \<lparr>flags = [''-p'', ''--project-name''], dest = ''project_name'', kind = Store,
           dflt = PyNone, choices = None\<rparr>,
          \<lparr>flags = [''--resolve-symlinks''], dest = ''resolve_symlinks'', kind = StoreTrue,
           dflt = PyBool False, choices = None\<rparr>,
          \<lparr>flags = [''--target'', ''-t''], dest = ''target'', kind = Store,
           dflt = PyNone, choices = None\<rparr>,
          \<lparr>flags = [''--verbose''], dest = ''verbose'', kind = StoreTrue,
           dflt = PyBool False, choices = None\<rparr>,
          \<lparr>flags = [''--volumes''], dest = ''volumes'', kind = StoreTrue,
           dflt = PyBool False, choices = None\<rparr>,
          \<lparr>flags = [], dest = ''services'', kind = StoreMany,
           dflt = PyTuple [], choices = None\<rparr>]\<rparr>)"

text \<open>\<^verbatim>\<open>add_restore_parser(parser)\<close>: its body is \<^verbatim>\<open>pass\<close>.\<close>

definition add_restore_parser :: "subparsers \<Rightarrow> subparsers" where
  "add_restore_parser parser = parser"

text \<open>
  The namespace a subparser produces: the values of its declared arguments, then its
  defaults for every attribute still missing.
\<close>

definition namespace_of :: "subparser \<Rightarrow> options \<Rightarrow> options" where
  "namespace_of p vals =
     foldl (\<lambda>ns (k, v). if ns k = None then ns(k \<mapsto> v) else ns)
       (\<lambda>k. if k \<in> set (map dest (arguments p)) then vals k else None)
       (defaults p)"

text \<open>
  \<^verbatim>\<open>parser.parse_args(args)\<close>. How \<^verbatim>\<open>argparse\<close> reads the strings is left to two parameters:
  \<^verbatim>\<open>select\<close> scans the top level (it exits for \<^verbatim>\<open>--version\<close> and \<^verbatim>\<open>--help\<close>, or finds no
  subcommand, or a subcommand name and the strings after it), and \<^verbatim>\<open>fill\<close> converts the
  strings of a subcommand into values for its declared arguments. An unregistered
  subcommand name is a usage error, which exits with status 2.
\<close>

definition parse_args ::
  "(string list \<Rightarrow> error + (string \<times> string list) option) \<Rightarrow>
   (argument list \<Rightarrow> string list \<Rightarrow> error + options) \<Rightarrow>
   subparsers \<Rightarrow> string list \<Rightarrow> error + options" where
  "parse_args select fill subparsers args =
     bindE (select args) (\<lambda>chosen.
     case chosen of
       None \<Rightarrow> Inr Map.empty
     | Some (cmd, rest) \<Rightarrow>
         (case subparsers cmd of
            None \<Rightarrow> Inl (SystemExit 2)
          | Some p \<Rightarrow> bindE (fill (arguments p) rest) (\<lambda>vals. Inr (namespace_of p vals))))"

definition parse_cli_args ::
  "(string list \<Rightarrow> error + (string \<times> string list) option) \<Rightarrow>
   (argument list \<Rightarrow> string list \<Rightarrow> error + options) \<Rightarrow>
   string \<Rightarrow> string list \<Rightarrow> error + options" where
  "parse_cli_args select fill cwd args =
     (let subparsers = Map.empty;
          subparsers = add_backup_parser cwd subparsers;
          subparsers = add_restore_parser subparsers
      in parse_args select fill subparsers args)"

section \<open>Observing results, and a concrete command line\<close>

text \<open>The entry of a returned dictionary under a key, or the exception raised instead.\<close>

definition result_item :: "error + options \<Rightarrow> string \<Rightarrow> error + pyval option" where
  "result_item res k = (case res of Inl e \<Rightarrow> Inl e | Inr d \<Rightarrow> Inr (d k))"

text \<open>A \<^verbatim>\<open>directory_exists\<close> that finds every directory.\<close>

definition all_exist :: "pyval \<Rightarrow> error + unit" where
  "all_exist v = Inr ()"

text \<open>
  The namespace of \<^verbatim>\<open>compose-dump backup --mounted -t out.gz --project-dir /srv/proj\<close>.
\<close>

definition example_options :: options where
  "example_options =
     [''action'' \<mapsto> PyFunc ''backup'', ''config'' \<mapsto> PyBool False,
      ''compression'' \<mapsto> PyNone, ''file'' \<mapsto> PyNone, ''mounted'' \<mapsto> PyBool True,
      ''no_pause'' \<mapsto> PyBool False, ''project_dir'' \<mapsto> PyStr ''/srv/proj'',
      ''project_name'' \<mapsto> PyNone, ''resolve_symlinks'' \<mapsto> PyBool False,
      ''target'' \<mapsto> PyStr ''out.gz'', ''verbose'' \<mapsto> PyBool False,
      ''volumes'' \<mapsto> PyBool False, ''services'' \<mapsto> PyTuple []]"

text \<open>
  A stand-in for the external library: every project has the services \<^verbatim>\<open>web\<close> and
  \<^verbatim>\<open>db\<close>. Its \<^verbatim>\<open>str\<close> is that of strings and paths, the values a project directory has.
\<close>

definition path_str :: "path \<Rightarrow> string" where
  "path_str p = (if root p = [] \<and> parts p = [] then ''.'' else root p @ join ''/'' (parts p))"

definition example_lib :: "(unit, unit) compose_config" where
  "example_lib =
     \<lparr>from_env_file = (\<lambda>base_dir. Inr ()),
      find' = (\<lambda>base_dir files environment. Inr ()),
      load = (\<lambda>config_details. Inr \<lparr>services = [\<lparr>name = ''web''\<rparr>, \<lparr>name = ''db''\<rparr>]\<rparr>),
      py_str = (\<lambda>v. case v of PyStr s \<Rightarrow> s | PyPath p \<Rightarrow> path_str p | _ \<Rightarrow> []),
      set_iter = (\<lambda>xs. xs)\<rparr>"

text \<open>The same library on a project whose compose file is invalid.\<close>

definition failing_lib :: "(unit, unit) compose_config" where
  "failing_lib = example_lib\<lparr>load := (\<lambda>config_details. Inl (ConfigurationError ''invalid''))\<rparr>"

text \<open>Normalized options, as \<^verbatim>\<open>get_compose_context\<close> receives them.\<close>

definition example_context :: options where
  "example_context =
     [''project_dir'' \<mapsto> PyPath (Path ''/'' [''srv'', ''proj'']), ''compose_files'' \<mapsto> PyNone,
      ''services'' \<mapsto> PyTuple []]"

text \<open>
  A stand-in for the reading of the command line: the first string is the subcommand
  unless it is \<^verbatim>\<open>--version\<close>, and every declared argument keeps its default.
\<close>

definition example_select :: "string list \<Rightarrow> error + (string \<times> string list) option" where
  "example_select args =
     (case args of
        [] \<Rightarrow> Inr None
      | a # rest \<Rightarrow> if a = ''--version'' then Inl (SystemExit 0) else Inr (Some (a, rest)))"

definition example_fill :: "argument list \<Rightarrow> string list \<Rightarrow> error + options" where
  "example_fill declared rest = Inr (map_of (map (\<lambda>a. (dest a, dflt a)) declared))"

text \<open>
  The namespaces the backup parser produces, read off the declarations of
  \<^verbatim>\<open>add_backup_parser\<close>: the action is \<^verbatim>\<open>backup\<close>, a \<^verbatim>\<open>store_true\<close> flag is a boolean, an
  option with a value is \<^verbatim>\<open>None\<close> or a string (one of the choices, if it has choices), and
  an option with several values is \<^verbatim>\<open>None\<close> or a list, or its default.
\<close>

definition is_flag :: "options \<Rightarrow> string \<Rightarrow> bool" where
  "is_flag d k = (case d k of Some (PyBool b) \<Rightarrow> True | _ \<Rightarrow> False)"

definition is_optional_str :: "options \<Rightarrow> string \<Rightarrow> bool" where
  "is_optional_str d k = (case d k of Some PyNone \<Rightarrow> True | Some (PyStr s) \<Rightarrow> True | _ \<Rightarrow> False)"

definition backup_namespace :: "options \<Rightarrow> bool" where
  "backup_namespace d \<longleftrightarrow>
     d ''action'' = Some (PyFunc ''backup'') \<and>
     is_flag d ''config'' \<and> is_flag d ''mounted'' \<and> is_flag d ''volumes'' \<and>
     is_flag d ''no_pause'' \<and> is_flag d ''resolve_symlinks'' \<and> is_flag d ''verbose'' \<and>
     (case d ''compression'' of
        Some PyNone \<Rightarrow> True | Some (PyStr c) \<Rightarrow> c \<in> set COMPRESSIONS | _ \<Rightarrow> False) \<and>
     (case d ''file'' of Some PyNone \<Rightarrow> True | Some (PyList fs) \<Rightarrow> True | _ \<Rightarrow> False) \<and>
     (case d ''project_dir'' of Some (PyStr s) \<Rightarrow> True | _ \<Rightarrow> False) \<and>
     is_optional_str d ''project_name'' \<and>
     is_optional_str d ''target'' \<and>
     (case d ''services'' of Some (PyTuple ss) \<Rightarrow> ss = [] | Some (PyList ss) \<Rightarrow> True | _ \<Rightarrow> False)"

section \<open>How the paragraphs of the normalizer change the dictionary\<close>

lemma bindE_Inr_iff: "bindE m f = Inr r \<longleftrightarrow> (\<exists>v. m = Inr v \<and> f v = Inr r)"
  by (cases m) (simp_all add: bindE_def)

lemma getitem_Inr_iff: "getitem d k = Inr v \<longleftrightarrow> d k = Some v"
  by (simp add: getitem_def split: option.splits)

lemma delitem_Inr_iff: "delitem d k = Inr d' \<longleftrightarrow> d k \<noteq> None \<and> d' = d(k := None)"
  by (auto simp: delitem_def split: option.splits)

lemma iadd_tuple_Inr_iff:
  "iadd_tuple v ys = Inr w \<longleftrightarrow>
     (\<exists>xs. (v = PyTuple xs \<and> w = PyTuple (xs @ ys)) \<or> (v = PyList xs \<and> w = PyList (xs @ ys)))"
  by (cases v) auto

lemma scopes_loop_result:
  "scopes_loop scs d = Inr d' \<Longrightarrow> ''scopes'' \<notin> set scs \<Longrightarrow> distinct scs \<Longrightarrow>
   d ''scopes'' = Some (PyTuple acc) \<Longrightarrow>
   d' = (\<lambda>k. if k \<in> set scs then None else d k)
          (''scopes'' \<mapsto> PyTuple (acc @ filter (flag_set d) scs)) \<and>
   (\<forall>s \<in> set scs. d s \<noteq> None)"
proof (induction scs arbitrary: d acc)
  case Nil
  then show ?case by (auto simp: fun_eq_iff)
next
  case (Cons s scs)
  from Cons.prems(1) obtain flag d1 where
    flag: "d s = Some flag" and
    d1: "d1 = (if truthy flag then d(''scopes'' \<mapsto> PyTuple (acc @ [s])) else d)" and
    rest: "scopes_loop scs (d1(s := None)) = Inr d'"
    using Cons.prems(4)
    by (auto simp: bindE_Inr_iff getitem_Inr_iff delitem_Inr_iff iadd_tuple_Inr_iff
        split: if_splits)
  let ?acc1 = "if truthy flag then acc @ [s] else acc"
  have sc: "(d1(s := None)) ''scopes'' = Some (PyTuple ?acc1)"
    using Cons.prems(2,4) d1 by auto
  have same: "\<And>k. k \<in> set scs \<Longrightarrow> (d1(s := None)) k = d k"
    using Cons.prems(2,3) d1 by auto
  have "\<And>k. k \<in> set scs \<Longrightarrow> flag_set (d1(s := None)) k = flag_set d k"
    unfolding flag_set_def by (simp only: same)
  then have filt: "filter (flag_set (d1(s := None))) scs = filter (flag_set d) scs"
    by (intro filter_cong) simp_all
  have a: "''scopes'' \<notin> set scs" "distinct scs"
    using Cons.prems(2,3) by auto
  note ih = Cons.IH[OF rest a sc]
  note res = ih[THEN conjunct1] and pres = ih[THEN conjunct2]
  have "d' = (\<lambda>k. if k \<in> set (s # scs) then None else d k)
          (''scopes'' \<mapsto> PyTuple (acc @ filter (flag_set d) (s # scs)))"
    unfolding res filt using d1 flag by (auto simp: fun_eq_iff flag_set_def)
  moreover have "\<forall>k \<in> set (s # scs). d k \<noteq> None"
    using pres same flag by auto
  ultimately show ?case by blast
qed

lemma resolve_project_Inr:
  assumes "resolve_project de env d = Inr d1"
  shows "\<exists>f pd p pn. d ''action'' \<noteq> None \<and> d ''file'' = Some f \<and> d ''project_dir'' = Some pd \<and>
           Path_of pd = Inr p \<and> d ''project_name'' = Some pn \<and>
           d1 = d(''action'' := None, ''compose_files'' \<mapsto> f, ''file'' := None,
                  ''project_dir'' \<mapsto> PyPath p,
                  ''project_name'' \<mapsto>
                     (if truthy pn then pn
                      else (case env ''COMPOSE_PROJECT_NAME'' of
                              None \<Rightarrow> PyStr (path_name p)
                            | Some v \<Rightarrow> if v \<noteq> [] then PyStr v else PyStr (path_name p))))"
  using assms unfolding resolve_project_def
  by (auto simp: bindE_Inr_iff getitem_Inr_iff delitem_Inr_iff Let_def)

lemma resolve_scopes_Inr:
  assumes "resolve_scopes d1 = Inr d2"
  shows "(\<forall>s \<in> set SCOPES. d1 s \<noteq> None) \<and>
         d2 = (\<lambda>k. if k \<in> set SCOPES then None else d1 k)
                (''scopes'' \<mapsto> PyTuple (if filter (flag_set d1) SCOPES = [] then SCOPES
                                          else filter (flag_set d1) SCOPES))"
proof -
  let ?d = "d1(''scopes'' \<mapsto> PyTuple [])"
  let ?fs = "filter (flag_set d1) SCOPES"
  from assms obtain d' where loop: "scopes_loop SCOPES ?d = Inr d'"
    unfolding resolve_scopes_def by (cases "scopes_loop SCOPES ?d") (simp_all add: bindE_def)
  have notin: "''scopes'' \<notin> set SCOPES" and dist: "distinct SCOPES"
    by (simp_all add: SCOPES_def)
  have init: "?d ''scopes'' = Some (PyTuple [])" by simp
  note r = scopes_loop_result[OF loop notin dist init]
  have same: "\<And>k. k \<in> set SCOPES \<Longrightarrow> flag_set ?d k = flag_set d1 k"
    using notin by (auto simp: flag_set_def)
  have filt: "filter (flag_set ?d) SCOPES = ?fs"
    using same by (intro filter_cong) simp_all
  have d': "d' = (\<lambda>k. if k \<in> set SCOPES then None else ?d k)(''scopes'' \<mapsto> PyTuple ?fs)"
    using r[THEN conjunct1] by (simp only: filt append_Nil)
  have pres: "\<forall>s \<in> set SCOPES. d1 s \<noteq> None"
  proof
    fix s assume s: "s \<in> set SCOPES"
    then have ne: "s \<noteq> ''scopes''" using notin by blast
    from r[THEN conjunct2] s have "?d s \<noteq> None" by blast
    with ne show "d1 s \<noteq> None" by simp
  qed
  have sc: "d' ''scopes'' = Some (PyTuple ?fs)"
    by (subst d') simp
  have "d2 = (if ?fs = [] then d'(''scopes'' \<mapsto> PyTuple SCOPES) else d')"
    using assms loop sc unfolding resolve_scopes_def
    by (auto simp: bindE_def getitem_def split: if_splits)
  then have "d2 = (\<lambda>k. if k \<in> set SCOPES then None else d1 k)
                (''scopes'' \<mapsto> PyTuple (if ?fs = [] then SCOPES else ?fs))"
    by (subst (asm) d', subst (asm) d') (auto simp: fun_eq_iff)
  with pres show ?thesis by blast
qed

lemma resolve_compression_keys:
  assumes "resolve_compression d2 = Inr d3"
  shows "\<exists>t c. d2 ''target'' = Some t \<and> d2 ''compression'' = Some c"
proof (cases "d2 ''target''")
  case None
  with assms show ?thesis
    by (simp add: resolve_compression_def bindE_def getitem_def)
next
  case (Some t)
  show ?thesis
  proof (cases "d2 ''compression''")
    case None
    with assms Some show ?thesis
      by (cases "Path_of t")
         (simp_all add: resolve_compression_def bindE_def getitem_def Let_def split: if_splits)
  next
    case (Some c)
    with \<open>d2 ''target'' = Some t\<close> show ?thesis by simp
  qed
qed

lemma resolve_compression_eq:
  assumes "d2 ''target'' = Some t" and "d2 ''compression'' = Some c"
  shows "resolve_compression d2 =
           (if t \<noteq> PyNone then
              bindE (Path_of t) (\<lambda>tp.
                Inr (if c = PyNone \<and> suffix tp \<in> set COMPRESSION_EXTENSIONS
                     then d2(''target'' \<mapsto> PyPath tp, ''compression'' \<mapsto> PyStr (drop 1 (suffix tp)))
                     else d2(''target'' \<mapsto> PyPath tp)))
            else Inr (if c = PyNone then d2(''compression'' \<mapsto> PyStr ''tar'') else d2))"
  using assms
  by (cases "Path_of t") (simp_all add: resolve_compression_def bindE_def getitem_def Let_def)

lemma resolve_compression_Inr:
  assumes "resolve_compression d2 = Inr d3"
  shows "\<exists>t c. d2 ''target'' = Some t \<and> d2 ''compression'' = Some c \<and>
           (if t \<noteq> PyNone then
              (\<exists>tp. Path_of t = Inr tp \<and>
                 d3 = (if c = PyNone \<and> suffix tp \<in> set COMPRESSION_EXTENSIONS
                       then d2(''target'' \<mapsto> PyPath tp, ''compression'' \<mapsto> PyStr (drop 1 (suffix tp)))
                       else d2(''target'' \<mapsto> PyPath tp)))
            else d3 = (if c = PyNone then d2(''compression'' \<mapsto> PyStr ''tar'') else d2))"
proof -
  from resolve_compression_keys[OF assms] obtain t c where
    t: "d2 ''target'' = Some t" and c: "d2 ''compression'' = Some c" by blast
  note eq = assms[unfolded resolve_compression_eq[OF t c]]
  show ?thesis
  proof (cases "t = PyNone")
    case True
    with eq have "d3 = (if c = PyNone then d2(''compression'' \<mapsto> PyStr ''tar'') else d2)"
      by simp
    with t c True show ?thesis by simp
  next
    case False
    with eq obtain tp where tp: "Path_of t = Inr tp"
      and d3: "d3 = (if c = PyNone \<and> suffix tp \<in> set COMPRESSION_EXTENSIONS
                       then d2(''target'' \<mapsto> PyPath tp, ''compression'' \<mapsto> PyStr (drop 1 (suffix tp)))
                       else d2(''target'' \<mapsto> PyPath tp))"
      by (cases "Path_of t") (simp_all add: bindE_def)
    with t c False show ?thesis by simp
  qed
qed

lemma resolve_target_type_Inr:
  assumes "resolve_target_type de d3 = Inr r"
  shows "\<exists>c. d3 ''compression'' = Some c \<and>
           r = d3(''target_type'' \<mapsto> PyStr (if truthy c then ''archive'' else ''folder'')) \<and>
           (\<not> truthy c \<longrightarrow> (\<exists>t. d3 ''target'' = Some t \<and> de t = Inr ()))"
proof -
  from assms obtain c where c: "d3 ''compression'' = Some c"
    unfolding resolve_target_type_def by (auto simp: bindE_Inr_iff getitem_Inr_iff)
  show ?thesis
  proof (cases "truthy c")
    case True
    with assms c show ?thesis
      unfolding resolve_target_type_def by (simp add: bindE_def getitem_def)
  next
    case False
    with assms c show ?thesis
      unfolding resolve_target_type_def
      by (auto simp: bindE_Inr_iff getitem_Inr_iff)
  qed
qed

lemma process_backup_options_Inr:
  assumes "process_backup_options de env d = Inr r"
  shows "\<exists>d1 d2 d3. resolve_project de env d = Inr d1 \<and> resolve_scopes d1 = Inr d2 \<and>
           resolve_compression d2 = Inr d3 \<and> resolve_target_type de d3 = Inr r"
  using assms unfolding process_backup_options_def
  by (simp add: bindE_Inr_iff)

lemma flag_set_resolve_project:
  assumes "resolve_project de env d = Inr d1" and "s \<in> set SCOPES"
  shows "flag_set d1 s = flag_set d s"
proof -
  from resolve_project_Inr[OF assms(1)] obtain f p v where
    d1: "d1 = d(''action'' := None, ''compose_files'' \<mapsto> f, ''file'' := None,
                ''project_dir'' \<mapsto> PyPath p, ''project_name'' \<mapsto> v)"
    by blast
  from assms(2) have "s = ''config'' \<or> s = ''mounted'' \<or> s = ''volumes''"
    by (simp add: SCOPES_def)
  then have "d1 s = d s"
    unfolding d1 by auto
  then show ?thesis by (simp add: flag_set_def)
qed

lemma stages_compression:
  assumes s1: "resolve_project de env opts = Inr d1" and s2: "resolve_scopes d1 = Inr d2"
  shows "d2 ''compression'' = opts ''compression''" and "d2 ''target'' = opts ''target''"
proof -
  from resolve_project_Inr[OF s1] obtain f p v where
    d1: "d1 = opts(''action'' := None, ''compose_files'' \<mapsto> f, ''file'' := None,
                ''project_dir'' \<mapsto> PyPath p, ''project_name'' \<mapsto> v)"
    by blast
  have d2: "d2 = (\<lambda>k. if k \<in> set SCOPES then None else d1 k)
                (''scopes'' \<mapsto> PyTuple (if filter (flag_set d1) SCOPES = [] then SCOPES
                                          else filter (flag_set d1) SCOPES))"
    using resolve_scopes_Inr[OF s2] by blast
  show "d2 ''compression'' = opts ''compression''"
    by (subst d2, subst d1) (simp add: SCOPES_def)
  show "d2 ''target'' = opts ''target''"
    by (subst d2, subst d1) (simp add: SCOPES_def)
qed

lemma stages_late_frame:
  assumes s2: "resolve_scopes d1 = Inr d2" and s3: "resolve_compression d2 = Inr d3"
    and s4: "resolve_target_type de d3 = Inr r"
    and k: "k \<notin> set SCOPES" "k \<noteq> ''scopes''" "k \<noteq> ''target''" "k \<noteq> ''compression''"
      "k \<noteq> ''target_type''"
  shows "r k = d1 k"
proof -
  have "d2 k = d1 k"
    using resolve_scopes_Inr[OF s2, THEN conjunct2] k(1,2) by simp
  moreover have "d3 k = d2 k"
    using resolve_compression_Inr[OF s3] k(3,4) by (auto split: if_splits)
  moreover have "r k = d3 k"
    using resolve_target_type_Inr[OF s4] k(5) by auto
  ultimately show ?thesis by simp
qed

section \<open>The normalizer returns on what the parser produces\<close>

text \<open>
  On a namespace of the backup parser, and when every directory asked for exists,
  \<^verbatim>\<open>process_backup_options\<close> raises nothing: the results below are about inputs that exist.
\<close>

lemma scopes_loop_returns:
  "\<forall>s \<in> set scs. d s \<noteq> None \<Longrightarrow> ''scopes'' \<notin> set scs \<Longrightarrow> distinct scs \<Longrightarrow>
   d ''scopes'' = Some (PyTuple acc) \<Longrightarrow> \<exists>d'. scopes_loop scs d = Inr d'"
proof (induction scs arbitrary: d acc)
  case Nil
  then show ?case by simp
next
  case (Cons s scs)
  from Cons.prems(1) obtain flag where flag: "d s = Some flag" by auto
  define d1 where "d1 = (if truthy flag then d(''scopes'' \<mapsto> PyTuple (acc @ [s])) else d)"
  have ne: "s \<noteq> ''scopes''" using Cons.prems(2) by auto
  have d1s: "d1 s = Some flag" using flag ne by (simp add: d1_def)
  have step: "scopes_loop (s # scs) d = scopes_loop scs (d1(s := None))"
    using flag d1s Cons.prems(4)
    by (simp add: bindE_def getitem_def delitem_def d1_def)
  have pres: "\<forall>k \<in> set scs. (d1(s := None)) k \<noteq> None"
    using Cons.prems(1,3) by (auto simp: d1_def)
  have sc: "(d1(s := None)) ''scopes'' = Some (PyTuple (if truthy flag then acc @ [s] else acc))"
    using ne Cons.prems(4) by (simp add: d1_def)
  have a: "''scopes'' \<notin> set scs" "distinct scs"
    using Cons.prems(2,3) by auto
  have "\<exists>d'. scopes_loop scs (d1(s := None)) = Inr d'"
    by (rule Cons.IH[OF pres a sc])
  then show ?case unfolding step .
qed

lemma resolve_project_eq:
  assumes "d ''action'' = Some a" and "d ''file'' = Some f" and "d ''project_dir'' = Some pd"
    and "Path_of pd = Inr p" and "directory_exists (PyPath p) = Inr ()"
    and "d ''project_name'' = Some pn"
  shows "resolve_project directory_exists env d =
           Inr (d(''action'' := None, ''compose_files'' \<mapsto> f, ''file'' := None,
                  ''project_dir'' \<mapsto> PyPath p,
                  ''project_name'' \<mapsto>
                     (if truthy pn then pn
                      else (case env ''COMPOSE_PROJECT_NAME'' of
                              None \<Rightarrow> PyStr (path_name p)
                            | Some v \<Rightarrow> if v \<noteq> [] then PyStr v else PyStr (path_name p)))))"
  using assms
  by (simp add: resolve_project_def bindE_def getitem_def delitem_def Let_def)

lemma process_backup_options_returns:
  assumes ns: "backup_namespace d" and de: "\<And>v. directory_exists v = Inr ()"
  shows "\<exists>r. process_backup_options directory_exists env d = Inr r"
proof -
  from ns obtain dir where dir: "d ''project_dir'' = Some (PyStr dir)"
    by (auto simp: backup_namespace_def split: option.splits pyval.splits)
  from ns obtain f pn where f: "d ''file'' = Some f" and pn: "d ''project_name'' = Some pn"
    and act: "d ''action'' \<noteq> None"
    by (auto simp: backup_namespace_def is_optional_str_def split: option.splits)
  from ns have flags: "\<forall>s \<in> set SCOPES. d s \<noteq> None"
    by (auto simp: backup_namespace_def is_flag_def SCOPES_def split: option.splits)
  from ns obtain t c where t: "d ''target'' = Some t" and c: "d ''compression'' = Some c"
    and tstr: "t = PyNone \<or> (\<exists>s. t = PyStr s)"
    by (auto simp: backup_namespace_def is_optional_str_def split: option.splits pyval.splits)
  from act obtain a where a: "d ''action'' = Some a" by auto
  have p: "Path_of (PyStr dir) = Inr (parse_path dir)" by simp
  obtain d1 where s1: "resolve_project directory_exists env d = Inr d1"
    using resolve_project_eq[where directory_exists = directory_exists and env = env,
        OF a f dir p de pn] by blast
  have flags1: "\<forall>s \<in> set SCOPES. d1 s \<noteq> None"
  proof
    fix s assume s: "s \<in> set SCOPES"
    with flags have "flag_set d1 s = flag_set d s" "d s \<noteq> None"
      using flag_set_resolve_project[OF s1] by auto
    from resolve_project_Inr[OF s1] obtain f' p v where
      d1: "d1 = d(''action'' := None, ''compose_files'' \<mapsto> f', ''file'' := None,
                  ''project_dir'' \<mapsto> PyPath p, ''project_name'' \<mapsto> v)"
      by blast
    from s have "s = ''config'' \<or> s = ''mounted'' \<or> s = ''volumes''"
      by (simp add: SCOPES_def)
    then have "d1 s = d s" unfolding d1 by auto
    with \<open>d s \<noteq> None\<close> show "d1 s \<noteq> None" by simp
  qed
  have "\<exists>d'. scopes_loop SCOPES (d1(''scopes'' \<mapsto> PyTuple [])) = Inr d'"
    by (rule scopes_loop_returns[where acc="[]"]) (use flags1 in \<open>auto simp: SCOPES_def\<close>)
  then obtain d' where loop: "scopes_loop SCOPES (d1(''scopes'' \<mapsto> PyTuple [])) = Inr d'"
    by blast
  have "d' ''scopes'' \<noteq> None"
    using scopes_loop_result[OF loop, where acc="[]"] by (simp add: SCOPES_def)
  then obtain y where y: "d' ''scopes'' = Some y" by auto
  have "\<exists>d2. resolve_scopes d1 = Inr d2"
    using loop y by (cases "truthy y") (simp_all add: resolve_scopes_def bindE_def getitem_def)
  then obtain d2 where s2: "resolve_scopes d1 = Inr d2" by blast
  have t2: "d2 ''target'' = Some t" and c2: "d2 ''compression'' = Some c"
    using stages_compression[OF s1 s2] t c by simp_all
  have "\<exists>d3. resolve_compression d2 = Inr d3"
    unfolding resolve_compression_eq[OF t2 c2] using tstr by (auto simp: bindE_def)
  then obtain d3 where s3: "resolve_compression d2 = Inr d3" by blast
  from resolve_compression_Inr[OF s3] obtain c3 t3 where
    c3: "d3 ''compression'' = Some c3" and t3: "d3 ''target'' = Some t3"
    by (auto split: if_splits)
  have "\<exists>r. resolve_target_type directory_exists d3 = Inr r"
    using c3 t3 de
    by (cases "truthy c3") (simp_all add: resolve_target_type_def bindE_def getitem_def)
  then obtain r where s4: "resolve_target_type directory_exists d3 = Inr r" by blast
  show ?thesis
    using s1 s2 s3 s4 by (simp add: process_backup_options_def bindE_def)
qed

lemma backup_namespace_example: "backup_namespace example_options"
  by code_simp

section \<open>The claims about the option normalizer\<close>

text \<open>
  Claim C1. Whenever \<^verbatim>\<open>process_backup_options\<close> returns, \<^verbatim>\<open>options['scopes']\<close> is the full
  tuple \<^verbatim>\<open>('config', 'mounted', 'volumes')\<close> if none of the three scope flags of the input
  is set, and otherwise the tuple of exactly the scopes whose flags are set, in the order
  of \<^verbatim>\<open>SCOPES\<close>.
\<close>

theorem scopes_from_flags:
  assumes "process_backup_options de env opts = Inr r"
  shows "r ''scopes'' =
           Some (PyTuple (if \<forall>s \<in> set SCOPES. \<not> flag_set opts s then SCOPES
                          else filter (flag_set opts) SCOPES))"
proof -
  from process_backup_options_Inr[OF assms] obtain d1 d2 d3 where
    s1: "resolve_project de env opts = Inr d1" and s2: "resolve_scopes d1 = Inr d2" and
    s3: "resolve_compression d2 = Inr d3" and s4: "resolve_target_type de d3 = Inr r"
    by blast
  have filt: "filter (flag_set d1) SCOPES = filter (flag_set opts) SCOPES"
    using flag_set_resolve_project[OF s1] by (intro filter_cong) simp_all
  have d2: "d2 ''scopes'' = Some (PyTuple (if filter (flag_set opts) SCOPES = [] then SCOPES
                                          else filter (flag_set opts) SCOPES))"
    using resolve_scopes_Inr[OF s2, THEN conjunct2] unfolding filt by simp
  have d3: "d3 ''scopes'' = d2 ''scopes''"
    using resolve_compression_Inr[OF s3] by (auto split: if_splits)
  have r: "r ''scopes'' = d3 ''scopes''"
    using resolve_target_type_Inr[OF s4] by auto
  have "(filter (flag_set opts) SCOPES = []) = (\<forall>s \<in> set SCOPES. \<not> flag_set opts s)"
    by (simp add: filter_empty_conv)
  with d2 d3 r show ?thesis by simp
qed

theorem scopes_from_flags_witness:
  "result_item (process_backup_options all_exist Map.empty example_options) ''scopes'' =
     Inr (Some (PyTuple [''mounted''])) \<and>
   result_item (process_backup_options all_exist Map.empty
      (example_options(''mounted'' \<mapsto> PyBool False))) ''scopes'' =
     Inr (Some (PyTuple [''config'', ''mounted'', ''volumes'']))"
proof -
  let ?none = "example_options(''mounted'' \<mapsto> PyBool False)"
  have "\<not> isl (process_backup_options all_exist Map.empty example_options)"
    by code_simp
  then obtain r where r: "process_backup_options all_exist Map.empty example_options = Inr r"
    by (cases "process_backup_options all_exist Map.empty example_options") simp_all
  have "\<not> isl (process_backup_options all_exist Map.empty ?none)"
    by code_simp
  then obtain r' where r': "process_backup_options all_exist Map.empty ?none = Inr r'"
    by (cases "process_backup_options all_exist Map.empty ?none") simp_all
  have f: "filter (flag_set example_options) SCOPES = [''mounted'']"
    and g: "\<not> (\<forall>s \<in> set SCOPES. \<not> flag_set example_options s)"
    and h: "\<forall>s \<in> set SCOPES. \<not> flag_set ?none s"
    and s: "SCOPES = [''config'', ''mounted'', ''volumes'']"
    by code_simp+
  have "r ''scopes'' = Some (PyTuple [''mounted''])"
    using scopes_from_flags[OF r] f g by simp
  moreover have "r' ''scopes'' = Some (PyTuple [''config'', ''mounted'', ''volumes''])"
    using scopes_from_flags[OF r'] h s by simp
  ultimately show ?thesis
    by (simp add: r r' result_item_def)
qed

text \<open>
  Claim C2. Whenever \<^verbatim>\<open>process_backup_options\<close> returns on an input whose target is given
  (is not \<^verbatim>\<open>None\<close>), whose compression is \<^verbatim>\<open>None\<close> and whose target path has one of the
  suffixes \<^verbatim>\<open>'.bz2'\<close>, \<^verbatim>\<open>'.gz'\<close>, \<^verbatim>\<open>'.tar'\<close>, \<^verbatim>\<open>'.xz'\<close>, the resulting
  \<^verbatim>\<open>options['compression']\<close> is that suffix without its leading dot.
\<close>

theorem compression_from_target_suffix:
  assumes "process_backup_options de env opts = Inr r"
    and "opts ''target'' = Some t" and "t \<noteq> PyNone" and "Path_of t = Inr tp"
    and "opts ''compression'' = Some PyNone"
    and "suffix tp \<in> set COMPRESSION_EXTENSIONS"
  shows "r ''compression'' = Some (PyStr (drop 1 (suffix tp)))"
proof -
  from process_backup_options_Inr[OF assms(1)] obtain d1 d2 d3 where
    s1: "resolve_project de env opts = Inr d1" and s2: "resolve_scopes d1 = Inr d2" and
    s3: "resolve_compression d2 = Inr d3" and s4: "resolve_target_type de d3 = Inr r"
    by blast
  have c2: "d2 ''compression'' = Some PyNone" and t2: "d2 ''target'' = Some t"
    using stages_compression[OF s1 s2] assms(2,5) by simp_all
  have "resolve_compression d2 =
          Inr (d2(''target'' \<mapsto> PyPath tp, ''compression'' \<mapsto> PyStr (drop 1 (suffix tp))))"
    using resolve_compression_eq[OF t2 c2] assms(3,4,6) by (simp add: bindE_def)
  with s3 have "d3 ''compression'' = Some (PyStr (drop 1 (suffix tp)))"
    by auto
  then show ?thesis
    using resolve_target_type_Inr[OF s4] by auto
qed

theorem compression_from_target_suffix_witness:
  "result_item (process_backup_options all_exist Map.empty example_options) ''compression'' =
     Inr (Some (PyStr ''gz''))"
proof -
  have "\<not> isl (process_backup_options all_exist Map.empty example_options)"
    by code_simp
  then obtain r where r: "process_backup_options all_exist Map.empty example_options = Inr r"
    by (cases "process_backup_options all_exist Map.empty example_options") simp_all
  have t: "example_options ''target'' = Some (PyStr ''out.gz'')"
    and c: "example_options ''compression'' = Some PyNone"
    and p: "Path_of (PyStr ''out.gz'') = Inr (Path [] [''out.gz''])"
    and e: "suffix (Path [] [''out.gz'']) \<in> set COMPRESSION_EXTENSIONS"
    and d: "drop 1 (suffix (Path [] [''out.gz''])) = ''gz''"
    by code_simp+
  have "r ''compression'' = Some (PyStr (drop 1 (suffix (Path [] [''out.gz'']))))"
    by (rule compression_from_target_suffix[OF r t _ p c e]) simp
  then show ?thesis
    unfolding d by (simp add: r result_item_def)
qed

text \<open>
  Claim C3. Whenever \<^verbatim>\<open>process_backup_options\<close> returns: if the input has neither a target
  nor a compression (both \<^verbatim>\<open>None\<close>), the resulting compression is \<^verbatim>\<open>'tar'\<close>; and the
  resulting \<^verbatim>\<open>options['target_type']\<close> is \<^verbatim>\<open>'archive'\<close> when the resulting compression is
  set (true as a condition, that is non-empty) and \<^verbatim>\<open>'folder'\<close> when it is not.
\<close>

theorem target_type_from_compression:
  assumes "process_backup_options de env opts = Inr r"
  shows "(opts ''target'' = Some PyNone \<and> opts ''compression'' = Some PyNone \<longrightarrow>
            r ''compression'' = Some (PyStr ''tar'')) \<and>
         (\<exists>c. r ''compression'' = Some c \<and>
              r ''target_type'' = Some (PyStr (if truthy c then ''archive'' else ''folder'')))"
proof -
  from process_backup_options_Inr[OF assms(1)] obtain d1 d2 d3 where
    s1: "resolve_project de env opts = Inr d1" and s2: "resolve_scopes d1 = Inr d2" and
    s3: "resolve_compression d2 = Inr d3" and s4: "resolve_target_type de d3 = Inr r"
    by blast
  from resolve_target_type_Inr[OF s4] obtain c where
    c: "d3 ''compression'' = Some c" and
    r: "r = d3(''target_type'' \<mapsto> PyStr (if truthy c then ''archive'' else ''folder''))"
    by blast
  have rc: "r ''compression'' = d3 ''compression''"
    by (subst r) simp
  have second: "\<exists>c. r ''compression'' = Some c \<and>
              r ''target_type'' = Some (PyStr (if truthy c then ''archive'' else ''folder''))"
    using c rc by (subst r) simp
  have first: "r ''compression'' = Some (PyStr ''tar'')"
    if "opts ''target'' = Some PyNone" and "opts ''compression'' = Some PyNone"
  proof -
    have c2: "d2 ''compression'' = Some PyNone" and t2: "d2 ''target'' = Some PyNone"
      using stages_compression[OF s1 s2] that by simp_all
    have "resolve_compression d2 = Inr (d2(''compression'' \<mapsto> PyStr ''tar''))"
      using resolve_compression_eq[OF t2 c2] by simp
    with s3 have "d3 ''compression'' = Some (PyStr ''tar'')" by auto
    with rc show ?thesis by simp
  qed
  from first second show ?thesis by blast
qed

theorem target_type_from_compression_witness:
  "result_item (process_backup_options all_exist Map.empty
      (example_options(''target'' \<mapsto> PyNone))) ''compression'' = Inr (Some (PyStr ''tar'')) \<and>
   result_item (process_backup_options all_exist Map.empty
      (example_options(''target'' \<mapsto> PyNone))) ''target_type'' = Inr (Some (PyStr ''archive''))"
proof -
  let ?opts = "example_options(''target'' \<mapsto> PyNone)"
  have "\<not> isl (process_backup_options all_exist Map.empty ?opts)"
    by code_simp
  then obtain r where r: "process_backup_options all_exist Map.empty ?opts = Inr r"
    by (cases "process_backup_options all_exist Map.empty ?opts") simp_all
  have t: "?opts ''target'' = Some PyNone" and c: "?opts ''compression'' = Some PyNone"
    by code_simp+
  from target_type_from_compression[OF r] t c
  have "r ''compression'' = Some (PyStr ''tar'')"
    and "\<exists>c. r ''compression'' = Some c \<and>
            r ''target_type'' = Some (PyStr (if truthy c then ''archive'' else ''folder''))"
    by blast+
  then have "r ''compression'' = Some (PyStr ''tar'')"
    and "r ''target_type'' = Some (PyStr ''archive'')"
    by auto
  then show ?thesis
    by (simp add: r result_item_def)
qed

text \<open>
  Claim C6, as amended. Whenever \<^verbatim>\<open>process_backup_options\<close> returns, the resulting
  \<^verbatim>\<open>options['project_name']\<close> is the given project name if that is true as a condition (for
  a string: given and non-empty); otherwise it is the value of \<^verbatim>\<open>COMPOSE_PROJECT_NAME\<close> if
  that variable is set and non-empty; otherwise it is the name of the project directory,
  its last path component.
\<close>

theorem project_name_resolution:
  assumes "process_backup_options de env opts = Inr r"
    and "opts ''project_name'' = Some pn" and "opts ''project_dir'' = Some pd"
    and "Path_of pd = Inr p"
  shows "(truthy pn \<longrightarrow> r ''project_name'' = Some pn) \<and>
         (\<not> truthy pn \<longrightarrow>
            (\<forall>v. env ''COMPOSE_PROJECT_NAME'' = Some v \<and> v \<noteq> [] \<longrightarrow>
                 r ''project_name'' = Some (PyStr v)) \<and>
            (env ''COMPOSE_PROJECT_NAME'' = None \<or> env ''COMPOSE_PROJECT_NAME'' = Some [] \<longrightarrow>
                 r ''project_name'' = Some (PyStr (path_name p))))"
proof -
  from process_backup_options_Inr[OF assms(1)] obtain d1 d2 d3 where
    s1: "resolve_project de env opts = Inr d1" and s2: "resolve_scopes d1 = Inr d2" and
    s3: "resolve_compression d2 = Inr d3" and s4: "resolve_target_type de d3 = Inr r"
    by blast
  have r: "r ''project_name'' = d1 ''project_name''"
    by (rule stages_late_frame[OF s2 s3 s4]) (simp_all add: SCOPES_def)
  from resolve_project_Inr[OF s1] assms(2,3,4)
  have "d1 ''project_name'' =
          Some (if truthy pn then pn
                else (case env ''COMPOSE_PROJECT_NAME'' of
                        None \<Rightarrow> PyStr (path_name p)
                      | Some v \<Rightarrow> if v \<noteq> [] then PyStr v else PyStr (path_name p)))"
    by auto
  with r show ?thesis by (auto split: option.splits)
qed

theorem project_name_resolution_witness:
  "result_item (process_backup_options all_exist Map.empty
      (example_options(''project_name'' \<mapsto> PyStr ''shop''))) ''project_name'' =
     Inr (Some (PyStr ''shop'')) \<and>
   result_item (process_backup_options all_exist [''COMPOSE_PROJECT_NAME'' \<mapsto> ''blog'']
      example_options) ''project_name'' = Inr (Some (PyStr ''blog'')) \<and>
   result_item (process_backup_options all_exist Map.empty example_options) ''project_name'' =
     Inr (Some (PyStr ''proj''))"
proof -
  let ?named = "example_options(''project_name'' \<mapsto> PyStr ''shop'')"
  let ?env = "[''COMPOSE_PROJECT_NAME'' \<mapsto> ''blog'']"
  have "\<not> isl (process_backup_options all_exist Map.empty ?named)"
    by code_simp
  then obtain r1 where r1: "process_backup_options all_exist Map.empty ?named = Inr r1"
    by (cases "process_backup_options all_exist Map.empty ?named") simp_all
  have "\<not> isl (process_backup_options all_exist ?env example_options)"
    by code_simp
  then obtain r2 where r2: "process_backup_options all_exist ?env example_options = Inr r2"
    by (cases "process_backup_options all_exist ?env example_options") simp_all
  have "\<not> isl (process_backup_options all_exist Map.empty example_options)"
    by code_simp
  then obtain r3 where r3: "process_backup_options all_exist Map.empty example_options = Inr r3"
    by (cases "process_backup_options all_exist Map.empty example_options") simp_all
  have n1: "?named ''project_name'' = Some (PyStr ''shop'')"
    and d1: "?named ''project_dir'' = Some (PyStr ''/srv/proj'')"
    and n: "example_options ''project_name'' = Some PyNone"
    and d: "example_options ''project_dir'' = Some (PyStr ''/srv/proj'')"
    and p: "Path_of (PyStr ''/srv/proj'') = Inr (Path ''/'' [''srv'', ''proj''])"
    and l: "path_name (Path ''/'' [''srv'', ''proj'']) = ''proj''"
    by code_simp+
  have "r1 ''project_name'' = Some (PyStr ''shop'')"
    using project_name_resolution[OF r1 n1 d1 p] by simp
  moreover have "r2 ''project_name'' = Some (PyStr ''blog'')"
    using project_name_resolution[OF r2 n d p] by simp
  moreover have "r3 ''project_name'' = Some (PyStr ''proj'')"
    using project_name_resolution[OF r3 n d p] l by simp
  ultimately show ?thesis
    by (simp add: r1 r2 r3 result_item_def)
qed

text \<open>
  The claim as first stated fails for a project name that is given but empty
  (\<^verbatim>\<open>-p ''\<close>): the result is not the given name but the name of the project directory.
\<close>

theorem project_name_given_empty_counterexample:
  "(example_options(''project_name'' \<mapsto> PyStr '''')) ''project_name'' = Some (PyStr '''') \<and>
   result_item (process_backup_options all_exist Map.empty
      (example_options(''project_name'' \<mapsto> PyStr ''''))) ''project_name'' =
     Inr (Some (PyStr ''proj''))"
  by (rule conjI, simp, code_simp)

text \<open>
  Claim C9. Whenever \<^verbatim>\<open>process_backup_options\<close> returns, the returned dictionary has none
  of the keys \<^verbatim>\<open>'action'\<close>, \<^verbatim>\<open>'file'\<close>, \<^verbatim>\<open>'config'\<close>, \<^verbatim>\<open>'mounted'\<close>, \<^verbatim>\<open>'volumes'\<close> and has
  all of the keys \<^verbatim>\<open>'compose_files'\<close>, \<^verbatim>\<open>'scopes'\<close>, \<^verbatim>\<open>'project_name'\<close>, \<^verbatim>\<open>'project_dir'\<close>,
  \<^verbatim>\<open>'compression'\<close>, \<^verbatim>\<open>'target'\<close> and \<^verbatim>\<open>'target_type'\<close>.
\<close>

theorem canonical_shape:
  assumes "process_backup_options de env opts = Inr r"
  shows "(\<forall>k \<in> {''action'', ''file'', ''config'', ''mounted'', ''volumes''}. k \<notin> dom r) \<and>
         (\<forall>k \<in> {''compose_files'', ''scopes'', ''project_name'', ''project_dir'',
                  ''compression'', ''target'', ''target_type''}. k \<in> dom r)"
proof -
  from process_backup_options_Inr[OF assms(1)] obtain d1 d2 d3 where
    s1: "resolve_project de env opts = Inr d1" and s2: "resolve_scopes d1 = Inr d2" and
    s3: "resolve_compression d2 = Inr d3" and s4: "resolve_target_type de d3 = Inr r"
    by blast
  from resolve_project_Inr[OF s1] obtain f p v where
    d1: "d1 = opts(''action'' := None, ''compose_files'' \<mapsto> f, ''file'' := None,
                ''project_dir'' \<mapsto> PyPath p, ''project_name'' \<mapsto> v)"
    by blast
  note late = stages_late_frame[OF s2 s3 s4]
  have "r ''action'' = d1 ''action''" by (rule late) (simp_all add: SCOPES_def)
  then have a: "r ''action'' = None" by (subst (asm) d1) simp
  have "r ''file'' = d1 ''file''" by (rule late) (simp_all add: SCOPES_def)
  then have b: "r ''file'' = None" by (subst (asm) d1) simp
  have "r ''compose_files'' = d1 ''compose_files''" by (rule late) (simp_all add: SCOPES_def)
  then have c: "r ''compose_files'' \<noteq> None" by (subst (asm) d1) simp
  have "r ''project_name'' = d1 ''project_name''" by (rule late) (simp_all add: SCOPES_def)
  then have d: "r ''project_name'' \<noteq> None" by (subst (asm) d1) simp
  have "r ''project_dir'' = d1 ''project_dir''" by (rule late) (simp_all add: SCOPES_def)
  then have e: "r ''project_dir'' \<noteq> None" by (subst (asm) d1) simp
  have d2: "d2 = (\<lambda>k. if k \<in> set SCOPES then None else d1 k)
                (''scopes'' \<mapsto> PyTuple (if filter (flag_set d1) SCOPES = [] then SCOPES
                                          else filter (flag_set d1) SCOPES))"
    using resolve_scopes_Inr[OF s2] by blast
  from resolve_compression_Inr[OF s3] obtain t c tgt cmp where
    d3: "d3 = d2 \<or> d3 = d2(''compression'' \<mapsto> cmp) \<or> d3 = d2(''target'' \<mapsto> tgt) \<or>
         d3 = d2(''target'' \<mapsto> tgt, ''compression'' \<mapsto> cmp)"
    and tc: "d2 ''target'' = Some t" "d2 ''compression'' = Some c"
    by (auto split: if_splits)
  from resolve_target_type_Inr[OF s4] obtain tt where r: "r = d3(''target_type'' \<mapsto> tt)"
    by blast
  have scopes2: "d2 ''scopes'' \<noteq> None" and flags2: "\<forall>k \<in> set SCOPES. d2 k = None"
    by (subst d2, simp add: SCOPES_def)+
  have f: "r ''scopes'' \<noteq> None" and g: "\<forall>k \<in> set SCOPES. r k = None"
    and h: "r ''target'' \<noteq> None" and i: "r ''compression'' \<noteq> None"
    and j: "r ''target_type'' \<noteq> None"
    using d3 scopes2 flags2 tc unfolding r by (auto simp: SCOPES_def)
  from a b c d e f g h i j show ?thesis
    by (auto simp: SCOPES_def dom_def)
qed

theorem canonical_shape_witness:
  "result_item (process_backup_options all_exist Map.empty example_options) ''action'' = Inr None \<and>
   result_item (process_backup_options all_exist Map.empty example_options) ''volumes'' = Inr None \<and>
   result_item (process_backup_options all_exist Map.empty example_options) ''target_type'' \<noteq>
     Inr None \<and>
   result_item (process_backup_options all_exist Map.empty example_options) ''compose_files'' \<noteq>
     Inr None"
proof -
  have "\<not> isl (process_backup_options all_exist Map.empty example_options)"
    by code_simp
  then obtain r where r: "process_backup_options all_exist Map.empty example_options = Inr r"
    by (cases "process_backup_options all_exist Map.empty example_options") simp_all
  have "''action'' \<notin> dom r \<and> ''volumes'' \<notin> dom r \<and> ''target_type'' \<in> dom r \<and>
    ''compose_files'' \<in> dom r"
    using canonical_shape[OF r] by simp
  then show ?thesis
    by (simp add: r result_item_def dom_def)
qed

text \<open>
  Claim C10. Whenever \<^verbatim>\<open>process_backup_options\<close> returns on an input whose compression is
  not \<^verbatim>\<open>None\<close>, the resulting \<^verbatim>\<open>options['compression']\<close> is the given value, whatever the
  suffix of the target path.
\<close>

theorem explicit_compression_kept:
  assumes "process_backup_options de env opts = Inr r"
    and "opts ''compression'' = Some c" and "c \<noteq> PyNone"
  shows "r ''compression'' = Some c"
proof -
  from process_backup_options_Inr[OF assms(1)] obtain d1 d2 d3 where
    s1: "resolve_project de env opts = Inr d1" and s2: "resolve_scopes d1 = Inr d2" and
    s3: "resolve_compression d2 = Inr d3" and s4: "resolve_target_type de d3 = Inr r"
    by blast
  have c2: "d2 ''compression'' = Some c"
    using stages_compression(1)[OF s1 s2] assms(2) by simp
  have "d3 ''compression'' = Some c"
    using resolve_compression_Inr[OF s3] c2 assms(3) by (auto split: if_splits)
  then show ?thesis
    using resolve_target_type_Inr[OF s4] by auto
qed

theorem explicit_compression_kept_witness:
  "result_item (process_backup_options all_exist Map.empty
      (example_options(''compression'' \<mapsto> PyStr ''bz2''))) ''compression'' =
     Inr (Some (PyStr ''bz2''))"
proof -
  let ?opts = "example_options(''compression'' \<mapsto> PyStr ''bz2'')"
  have "\<not> isl (process_backup_options all_exist Map.empty ?opts)"
    by code_simp
  then obtain r where r: "process_backup_options all_exist Map.empty ?opts = Inr r"
    by (cases "process_backup_options all_exist Map.empty ?opts") simp_all
  have c: "?opts ''compression'' = Some (PyStr ''bz2'')"
    by simp
  have "r ''compression'' = Some (PyStr ''bz2'')"
    by (rule explicit_compression_kept[OF r c]) simp
  then show ?thesis
    by (simp add: r result_item_def)
qed

section \<open>The claims about the compose context loader\<close>

text \<open>
  Claim C4. When the configuration is loaded and the \<^verbatim>\<open>'services'\<close> entry of the options
  contains a name that is not the name of a service of the loaded configuration,
  \<^verbatim>\<open>get_compose_context\<close> logs one error message, which lists the unknown services, and
  raises \<^verbatim>\<open>SystemExit\<close> with exit code 1 instead of returning.
\<close>

theorem unknown_service_exits:
  assumes "options ''project_dir'' = Some pd"
    and "from_env_file lib (py_str lib pd) = Inr environment"
    and "options ''compose_files'' = Some files"
    and "find' lib (py_str lib pd) files environment = Inr config_details"
    and "load lib config_details = Inr config"
    and "options ''services'' = Some wanted"
    and "iter wanted = Inr wanted_names"
    and "\<exists>s \<in> set wanted_names. s \<notin> set (map name (services config))"
  shows "get_compose_context lib options =
           ([''Unknown services: '' @
               join '', '' (set_iter lib
                 (remdups (filter (\<lambda>s. s \<notin> set (map name (services config))) wanted_names)))],
            Inl (SystemExit 1))"
proof -
  from assms(8) have "filter (\<lambda>s. s \<notin> set (map name (services config))) wanted_names \<noteq> []"
    by (simp add: filter_empty_conv)
  then have "remdups (filter (\<lambda>s. s \<notin> set (map name (services config))) wanted_names) \<noteq> []"
    by simp
  with assms(1-7) show ?thesis
    by (simp add: get_compose_context_def bindL_def getitem_def Let_def)
qed

theorem unknown_service_exits_witness:
  "get_compose_context example_lib (example_context(''services'' \<mapsto> PyList [''web'', ''cache''])) =
     ([''Unknown services: cache''], Inl (SystemExit 1))"
proof -
  let ?opts = "example_context(''services'' \<mapsto> PyList [''web'', ''cache''])"
  let ?config = "\<lparr>services = [\<lparr>name = ''web''\<rparr>, \<lparr>name = ''db''\<rparr>]\<rparr>"
  have pd: "?opts ''project_dir'' = Some (PyPath (Path ''/'' [''srv'', ''proj'']))"
    and fs: "?opts ''compose_files'' = Some PyNone"
    and sv: "?opts ''services'' = Some (PyList [''web'', ''cache''])"
    by (simp_all add: example_context_def)
  have env: "from_env_file example_lib (py_str example_lib (PyPath (Path ''/'' [''srv'', ''proj'']))) =
               Inr ()"
    and fd: "find' example_lib (py_str example_lib (PyPath (Path ''/'' [''srv'', ''proj''])))
               PyNone () = Inr ()"
    and ld: "load example_lib () = Inr ?config"
    by (simp_all add: example_lib_def)
  have it: "iter (PyList [''web'', ''cache'']) = Inr [''web'', ''cache'']"
    by simp
  have un: "\<exists>s \<in> set [''web'', ''cache'']. s \<notin> set (map name (services ?config))"
    by simp
  have msg: "''Unknown services: '' @
               join '', '' (set_iter example_lib
                 (remdups (filter (\<lambda>s. s \<notin> set (map name (services ?config)))
                    [''web'', ''cache'']))) = ''Unknown services: cache''"
    by (simp add: example_lib_def)
  show ?thesis
    using unknown_service_exits[OF pd env fs fd ld sv it un] unfolding msg .
qed

text \<open>
  Claim C5. Whenever the external configuration loader, \<^verbatim>\<open>compose_config.load\<close>, raises a
  \<^verbatim>\<open>ConfigurationError\<close>, \<^verbatim>\<open>get_compose_context\<close> logs the message of that error and raises
  \<^verbatim>\<open>SystemExit\<close> with exit code 1; the \<^verbatim>\<open>ConfigurationError\<close> itself is not propagated.
\<close>

theorem configuration_error_exits:
  assumes "options ''project_dir'' = Some pd"
    and "from_env_file lib (py_str lib pd) = Inr environment"
    and "options ''compose_files'' = Some files"
    and "find' lib (py_str lib pd) files environment = Inr config_details"
    and "load lib config_details = Inl (ConfigurationError msg)"
  shows "get_compose_context lib options = ([msg], Inl (SystemExit 1))"
  using assms by (simp add: get_compose_context_def bindL_def getitem_def)

theorem configuration_error_exits_witness:
  "get_compose_context failing_lib example_context = ([''invalid''], Inl (SystemExit 1))"
proof -
  have pd: "example_context ''project_dir'' = Some (PyPath (Path ''/'' [''srv'', ''proj'']))"
    and fs: "example_context ''compose_files'' = Some PyNone"
    by (simp_all add: example_context_def)
  have env: "from_env_file failing_lib (py_str failing_lib (PyPath (Path ''/'' [''srv'', ''proj'']))) =
               Inr ()"
    and fd: "find' failing_lib (py_str failing_lib (PyPath (Path ''/'' [''srv'', ''proj''])))
               PyNone () = Inr ()"
    and ld: "load failing_lib () = Inl (ConfigurationError ''invalid'')"
    by (simp_all add: failing_lib_def example_lib_def)
  show ?thesis
    by (rule configuration_error_exits[OF pd env fs fd ld])
qed

text \<open>
  Claim C8. When the configuration is loaded and every name in the \<^verbatim>\<open>'services'\<close> entry of
  the options is the name of a service of the loaded configuration,
  \<^verbatim>\<open>get_compose_context\<close> logs nothing and returns; an empty \<^verbatim>\<open>'services'\<close> entry is
  replaced by the tuple of the names of all services of the configuration, in the
  configuration's order, and a non-empty one is left as it is. No other entry changes.
\<close>

theorem services_default_to_all:
  assumes "options ''project_dir'' = Some pd"
    and "from_env_file lib (py_str lib pd) = Inr environment"
    and "options ''compose_files'' = Some files"
    and "find' lib (py_str lib pd) files environment = Inr config_details"
    and "load lib config_details = Inr config"
    and "options ''services'' = Some wanted"
    and "iter wanted = Inr wanted_names"
    and "set wanted_names \<subseteq> set (map name (services config))"
  shows "get_compose_context lib options =
           ([], Inr (if truthy wanted then options
                     else options(''services'' \<mapsto> PyTuple (map name (services config))),
                     config, config_details, environment))"
proof -
  from assms(8) have "filter (\<lambda>s. s \<notin> set (map name (services config))) wanted_names = []"
    by (auto simp: filter_empty_conv)
  with assms(1-7) show ?thesis
    by (simp add: get_compose_context_def bindL_def getitem_def Let_def)
qed

theorem services_default_to_all_witness:
  "get_compose_context example_lib example_context =
     ([], Inr (example_context(''services'' \<mapsto> PyTuple [''web'', ''db'']),
               \<lparr>services = [\<lparr>name = ''web''\<rparr>, \<lparr>name = ''db''\<rparr>]\<rparr>, (), ())) \<and>
   get_compose_context example_lib (example_context(''services'' \<mapsto> PyList [''db''])) =
     ([], Inr (example_context(''services'' \<mapsto> PyList [''db'']),
               \<lparr>services = [\<lparr>name = ''web''\<rparr>, \<lparr>name = ''db''\<rparr>]\<rparr>, (), ()))"
proof -
  let ?opts = "example_context(''services'' \<mapsto> PyList [''db''])"
  let ?config = "\<lparr>services = [\<lparr>name = ''web''\<rparr>, \<lparr>name = ''db''\<rparr>]\<rparr>"
  have pd: "example_context ''project_dir'' = Some (PyPath (Path ''/'' [''srv'', ''proj'']))"
    and fs: "example_context ''compose_files'' = Some PyNone"
    and sv: "example_context ''services'' = Some (PyTuple [])"
    and pd': "?opts ''project_dir'' = Some (PyPath (Path ''/'' [''srv'', ''proj'']))"
    and fs': "?opts ''compose_files'' = Some PyNone"
    and sv': "?opts ''services'' = Some (PyList [''db''])"
    by (simp_all add: example_context_def)
  have env: "from_env_file example_lib (py_str example_lib (PyPath (Path ''/'' [''srv'', ''proj'']))) =
               Inr ()"
    and fd: "find' example_lib (py_str example_lib (PyPath (Path ''/'' [''srv'', ''proj''])))
               PyNone () = Inr ()"
    and ld: "load example_lib () = Inr ?config"
    by (simp_all add: example_lib_def)
  have it: "iter (PyTuple []) = Inr []" and it': "iter (PyList [''db'']) = Inr [''db'']"
    by simp_all
  have kn: "set [] \<subseteq> set (map name (services ?config))"
    and kn': "set [''db''] \<subseteq> set (map name (services ?config))"
    by simp_all
  note a = services_default_to_all[OF pd env fs fd ld sv it kn]
  note b = services_default_to_all[OF pd' env fs' fd ld sv' it' kn']
  have "get_compose_context example_lib example_context =
     ([], Inr (example_context(''services'' \<mapsto> PyTuple [''web'', ''db'']), ?config, (), ()))"
    unfolding a by simp
  moreover have "get_compose_context example_lib ?opts = ([], Inr (?opts, ?config, (), ()))"
    unfolding b by simp
  ultimately show ?thesis
    by (rule conjI)
qed

section \<open>The claim about the restore subcommand\<close>

lemma namespace_of_backup_action:
  assumes "add_backup_parser cwd Map.empty cmd = Some p"
  shows "namespace_of p vals ''action'' = Some (PyFunc ''backup'')"
proof -
  from assms have p: "defaults p = [(''action'', PyFunc ''backup'')]"
    and d: "''action'' \<notin> set (map dest (arguments p))"
    by (auto simp: add_backup_parser_def split: if_splits)
  show ?thesis
    unfolding namespace_of_def p using d by simp
qed

text \<open>
  Claim C7. \<^verbatim>\<open>add_restore_parser\<close> leaves the subparsers object as it is; so \<^verbatim>\<open>restore\<close> is
  not a registered subcommand, selecting it ends the parse with a usage error, and for
  every argument vector a namespace that \<^verbatim>\<open>parse_cli_args\<close> returns has either no action or
  the action \<^verbatim>\<open>backup\<close>, never a restore action.
\<close>

theorem restore_is_a_stub:
  "add_restore_parser subparsers = subparsers \<and>
   add_restore_parser (add_backup_parser cwd Map.empty) ''restore'' = None \<and>
   (select args = Inr (Some (''restore'', rest)) \<longrightarrow>
      parse_cli_args select fill cwd args = Inl (SystemExit 2)) \<and>
   (parse_cli_args select fill cwd args = Inr ns \<longrightarrow>
      ns ''action'' = None \<or> ns ''action'' = Some (PyFunc ''backup''))"
proof -
  let ?reg = "add_backup_parser cwd Map.empty"
  have stub: "add_restore_parser subparsers = subparsers" for subparsers
    by (simp add: add_restore_parser_def)
  have unreg: "?reg ''restore'' = None"
    by (simp add: add_backup_parser_def)
  have parse: "parse_cli_args select fill cwd args = parse_args select fill ?reg args"
    by (simp add: parse_cli_args_def stub)
  have exits: "parse_cli_args select fill cwd args = Inl (SystemExit 2)"
    if "select args = Inr (Some (''restore'', rest))"
    unfolding parse using that unreg by (simp add: parse_args_def bindE_def)
  have action: "ns ''action'' = None \<or> ns ''action'' = Some (PyFunc ''backup'')"
    if ret: "parse_cli_args select fill cwd args = Inr ns"
  proof -
    from ret obtain chosen where chosen: "select args = Inr chosen"
      unfolding parse parse_args_def by (cases "select args") (simp_all add: bindE_def)
    show ?thesis
    proof (cases chosen)
      case None
      with ret chosen have "ns = Map.empty"
        unfolding parse parse_args_def by (simp add: bindE_def)
      then show ?thesis by simp
    next
      case (Some pair)
      obtain cmd rest where pair: "pair = (cmd, rest)" by (cases pair)
      from ret chosen Some pair obtain p where p: "?reg cmd = Some p"
        unfolding parse parse_args_def by (cases "?reg cmd") (simp_all add: bindE_def)
      from ret chosen Some pair p have "\<exists>vals. ns = namespace_of p vals"
        unfolding parse parse_args_def
        by (cases "fill (arguments p) rest") (auto simp: bindE_def)
      then show ?thesis
        using namespace_of_backup_action[OF p] by auto
    qed
  qed
  from stub unreg exits action show ?thesis
    by (simp add: stub)
qed

theorem restore_is_a_stub_witness:
  "parse_cli_args example_select example_fill ''/srv/proj'' [''restore'', ''-t'', ''out.gz''] =
     Inl (SystemExit 2) \<and>
   result_item (parse_cli_args example_select example_fill ''/srv/proj'' [''backup''])
     ''action'' = Inr (Some (PyFunc ''backup''))"
proof -
  let ?restore = "parse_cli_args example_select example_fill ''/srv/proj''
                    [''restore'', ''-t'', ''out.gz'']"
  let ?backup = "parse_cli_args example_select example_fill ''/srv/proj'' [''backup'']"
  have sel: "example_select [''restore'', ''-t'', ''out.gz''] =
               Inr (Some (''restore'', [''-t'', ''out.gz'']))"
    by (simp add: example_select_def)
  have a: "?restore = Inl (SystemExit 2)"
    using restore_is_a_stub[of _ "''/srv/proj''" example_select
        "[''restore'', ''-t'', ''out.gz'']" "[''-t'', ''out.gz'']" example_fill] sel
    by blast
  have "\<not> isl ?backup"
    by code_simp
  then obtain ns where ns: "?backup = Inr ns"
    by (cases ?backup) simp_all
  have "result_item ?backup ''action'' \<noteq> Inr None"
    by code_simp
  then have "ns ''action'' \<noteq> None"
    by (simp add: ns result_item_def)
  moreover have "ns ''action'' = None \<or> ns ''action'' = Some (PyFunc ''backup'')"
    using restore_is_a_stub[of _ "''/srv/proj''" example_select "[''backup'']" _ example_fill ns] ns
    by blast
  ultimately have "ns ''action'' = Some (PyFunc ''backup'')"
    by auto
  with a show ?thesis
    by (simp add: ns result_item_def)
qed

end
